theory Spec2Isabelle
  imports Main
begin

section \<open>The user table\<close>

text \<open>
  Modelled from the spec: the \<^verbatim>\<open>User\<close> class of \<^verbatim>\<open>app/models.py\<close>, which
  \<^verbatim>\<open>app/cli.py\<close> imports. The spec gives the table its four columns: \<open>id\<close> (a
  surrogate key assigned by the store), \<open>username\<close> (unique), \<open>email\<close> (unique) and
  \<open>password\<close> (a hash). A row of the table is a record; the table is the list of its
  rows in stored order.
\<close>

record user =
  uid :: int
  username :: string
  email :: string
  password :: string

type_synonym store = "user list"

text \<open>
  The exceptions that the arguments of a command can provoke in a call of the store:
  the violation of a uniqueness constraint, which SQLAlchemy raises as
  \<^verbatim>\<open>IntegrityError\<close>, and an integer parameter that does not fit the signed 64-bit
  integers of the store's driver, which raises Python's \<^verbatim>\<open>OverflowError\<close>.
\<close>

datatype db_error = IntegrityError | OverflowError

text \<open>
  What a command leaves behind: the committed table, the lines it printed, how the
  process ended, and whether the command body itself called \<^verbatim>\<open>db.rollback()\<close>.
  \<^verbatim>\<open>print(u)\<close> of a row is kept as the row (\<open>Shown\<close>): its textual form is that of
  the absent \<^verbatim>\<open>User\<close> class.
\<close>

datatype line = Text string | Shown user

datatype exit_status = Exit0 | Uncaught db_error

record outcome =
  db :: store
  printed :: "line list"
  status :: exit_status
  rolled_back :: bool

section \<open>The session gateway\<close>

text \<open>
  Modelled from the spec: the store behind \<^verbatim>\<open>get_session\<close>. The key of a new row is
  one more than the largest key in use (any unused key would do).
\<close>

definition fresh_id :: "store \<Rightarrow> int" where
  "fresh_id s = fold max (map uid s) 0 + 1"

text \<open>
  Modelled from the spec: \<^verbatim>\<open>db.add(newuser); db.commit()\<close> for a new object. The
  insert fails on a duplicate of either unique column and then changes nothing;
  otherwise the row is appended and handed back with its key.
\<close>

definition insert_row :: "store \<Rightarrow> string \<Rightarrow> string \<Rightarrow> string \<Rightarrow> db_error + (store \<times> user)" where
  "insert_row s u e pw =
     (if list_ex (\<lambda>r. username r = u \<or> email r = e) s then Inl IntegrityError
      else (let row = \<lparr>uid = fresh_id s, username = u, email = e, password = pw\<rparr>
            in Inr (s @ [row], row)))"

text \<open>
  Modelled from the spec: \<^verbatim>\<open>user.email = new_email; db.add(user); db.commit()\<close> for
  a loaded object, an UPDATE of the row with the object's key. It fails when another
  row already holds the new email.
\<close>

definition update_email :: "store \<Rightarrow> int \<Rightarrow> string \<Rightarrow> db_error + store" where
  "update_email s i e =
     (if list_ex (\<lambda>r. uid r \<noteq> i \<and> email r = e) s then Inl IntegrityError
      else Inr (map (\<lambda>r. if uid r = i then r\<lparr>email := e\<rparr> else r) s))"

text \<open>
  Modelled from the spec: \<^verbatim>\<open>db.delete(user); db.commit()\<close>, a DELETE of the row with
  the object's key.
\<close>

definition delete_row :: "store \<Rightarrow> int \<Rightarrow> store" where
  "delete_row s i = filter (\<lambda>r. uid r \<noteq> i) s"

text \<open>\<^verbatim>\<open>db.exec(select(User).where(User.username == username)).first()\<close>\<close>

definition first_by_username :: "store \<Rightarrow> string \<Rightarrow> user option" where
  "first_by_username s u = find (\<lambda>r. username r = u) s"

text \<open>
  Modelled from the spec: \<^verbatim>\<open>drop_all()\<close> followed by \<^verbatim>\<open>create_db_and_tables()\<close> of
  \<^verbatim>\<open>app/database.py\<close>: whatever the table held, it is empty afterwards.
\<close>

definition reset_schema :: "store \<Rightarrow> store" where
  "reset_schema s = []"

subsection \<open>The LIKE operator behind \<^verbatim>\<open>contains\<close>\<close>

text \<open>
  SQLAlchemy renders \<^verbatim>\<open>column.contains(q)\<close> as \<^verbatim>\<open>column LIKE '%' || q || '%'\<close>, and
  the argument is not escaped unless \<^verbatim>\<open>autoescape=True\<close> is passed, which the command
  does not do. In a LIKE pattern \<^verbatim>\<open>%\<close> stands for any run of characters and \<^verbatim>\<open>_\<close>
  for any one character. How two ordinary characters compare is the backend's
  business (some fold the case of letters), so the comparison \<open>eqc\<close> is a parameter.
\<close>

fun like :: "(char \<Rightarrow> char \<Rightarrow> bool) \<Rightarrow> string \<Rightarrow> string \<Rightarrow> bool" where
  "like eqc [] [] = True"
| "like eqc [] (c # s) = False"
| "like eqc (p # ps) [] = (p = CHR ''%'' \<and> like eqc ps [])"
| "like eqc (p # ps) (c # s) =
     (if p = CHR ''%'' then like eqc ps (c # s) \<or> like eqc (p # ps) s
      else (p = CHR ''_'' \<or> eqc p c) \<and> like eqc ps s)"

definition contains :: "(char \<Rightarrow> char \<Rightarrow> bool) \<Rightarrow> string \<Rightarrow> string \<Rightarrow> bool" where
  "contains eqc col q = like eqc (CHR ''%'' # q @ [CHR ''%'']) col"

text \<open>What the spec's words say instead: \<open>q\<close> occurs in the column as a substring.\<close>

fun is_prefix :: "string \<Rightarrow> string \<Rightarrow> bool" where
  "is_prefix [] s = True"
| "is_prefix (a # q) [] = False"
| "is_prefix (a # q) (c # s) = (a = c \<and> is_prefix q s)"

fun is_substring :: "string \<Rightarrow> string \<Rightarrow> bool" where
  "is_substring q [] = (q = [])"
| "is_substring q (c # s) = (is_prefix q (c # s) \<or> is_substring q s)"

section \<open>The commands of \<^verbatim>\<open>app/cli.py\<close>\<close>

text \<open>
  The constructor \<^verbatim>\<open>User(username, email, password)\<close> hashes the password before it
  is stored; the scheme is not fixed anywhere, so the hash function is a parameter of
  the two commands that build a user.
\<close>

definition initialize :: "(string \<Rightarrow> string) \<Rightarrow> store \<Rightarrow> outcome" where
  "initialize hash s =
     (case insert_row (reset_schema s) ''bob'' ''bob@mail.com'' (hash ''bobpass'') of
        Inl err \<Rightarrow> \<lparr>db = reset_schema s, printed = [], status = Uncaught err, rolled_back = False\<rparr>
      | Inr (s', bob) \<Rightarrow>
          \<lparr>db = s', printed = [Text ''Database Initialized''], status = Exit0, rolled_back = False\<rparr>)"

definition search_users :: "(char \<Rightarrow> char \<Rightarrow> bool) \<Rightarrow> string \<Rightarrow> store \<Rightarrow> user list" where
  "search_users eqc query s =
     filter (\<lambda>r. contains eqc (username r) query \<or> contains eqc (email r) query) s"

definition get_user :: "(char \<Rightarrow> char \<Rightarrow> bool) \<Rightarrow> string \<Rightarrow> store \<Rightarrow> outcome" where
  "get_user eqc query s =
     (let users = search_users eqc query s
      in if users = []
         then \<lparr>db = s, printed = [Text ''No users found''], status = Exit0, rolled_back = False\<rparr>
         else \<lparr>db = s, printed = map Shown users, status = Exit0, rolled_back = False\<rparr>)"

text \<open>
  \<^verbatim>\<open>select(User).offset(offset).limit(limit)\<close>. Both numbers are Python ints and go to
  the store unchecked, as parameters of the statement. A number outside the signed
  64-bit range cannot be bound and raises \<^verbatim>\<open>OverflowError\<close>. For a negative number
  the model follows SQLite: a negative offset skips nothing and a negative limit
  bounds nothing.
\<close>

definition int64 :: "int \<Rightarrow> bool" where
  "int64 n \<longleftrightarrow> - (2 ^ 63) \<le> n \<and> n < 2 ^ 63"

definition page :: "int \<Rightarrow> int \<Rightarrow> store \<Rightarrow> db_error + user list" where
  "page limit offset s =
     (if int64 limit \<and> int64 offset
      then (let rest = drop (nat offset) s
            in Inr (if limit < 0 then rest else take (nat limit) rest))
      else Inl OverflowError)"

definition get_all_users :: "int option \<Rightarrow> int option \<Rightarrow> store \<Rightarrow> outcome" where
  "get_all_users limit_opt offset_opt s =
     (let limit = (case limit_opt of None \<Rightarrow> 10 | Some l \<Rightarrow> l);
          offset = (case offset_opt of None \<Rightarrow> 0 | Some k \<Rightarrow> k)
      in case page limit offset s of
           Inl err \<Rightarrow> \<lparr>db = s, printed = [], status = Uncaught err, rolled_back = False\<rparr>
         | Inr users \<Rightarrow>
             if users = []
             then \<lparr>db = s, printed = [Text ''No users found''], status = Exit0,
                   rolled_back = False\<rparr>
             else \<lparr>db = s, printed = map Shown users, status = Exit0, rolled_back = False\<rparr>)"

definition change_email :: "string \<Rightarrow> string \<Rightarrow> store \<Rightarrow> outcome" where
  "change_email uname new_email s =
     (case first_by_username s uname of
        None \<Rightarrow>
          \<lparr>db = s, printed = [Text (uname @ '' not found! Unable to update email.'')],
           status = Exit0, rolled_back = False\<rparr>
      | Some usr \<Rightarrow>
          (case update_email s (uid usr) new_email of
             Inl err \<Rightarrow> \<lparr>db = s, printed = [], status = Uncaught err, rolled_back = False\<rparr>
           | Inr s' \<Rightarrow>
               \<lparr>db = s',
                printed = [Text (''Updated '' @ username usr @ [CHR 0x27] @ ''s email to '' @ new_email)],
                status = Exit0, rolled_back = False\<rparr>))"

definition create_user :: "(string \<Rightarrow> string) \<Rightarrow> string \<Rightarrow> string \<Rightarrow> string \<Rightarrow> store \<Rightarrow> outcome" where
  "create_user hash uname mail pw s =
     (case insert_row s uname mail (hash pw) of
        Inl IntegrityError \<Rightarrow>
          \<lparr>db = s, printed = [Text ''Username or email already taken!''],
           status = Exit0, rolled_back = True\<rparr>
      | Inl err \<Rightarrow> \<lparr>db = s, printed = [], status = Uncaught err, rolled_back = False\<rparr>
      | Inr (s', newuser) \<Rightarrow>
          \<lparr>db = s', printed = [Shown newuser], status = Exit0, rolled_back = False\<rparr>)"

definition delete_user :: "string \<Rightarrow> store \<Rightarrow> outcome" where
  "delete_user uname s =
     (case first_by_username s uname of
        None \<Rightarrow>
          \<lparr>db = s, printed = [Text (uname @ '' not found! Unable to delete user.'')],
           status = Exit0, rolled_back = False\<rparr>
      | Some usr \<Rightarrow>
          \<lparr>db = delete_row s (uid usr), printed = [Text (uname @ '' deleted'')],
           status = Exit0, rolled_back = False\<rparr>)"

subsection \<open>Runs of the tool\<close>

text \<open>
  Each invocation of the tool is one command; the table is all that one invocation
  passes to the next.
\<close>

datatype command =
    Initialize
  | GetUser string
  | GetAllUsers "int option" "int option"
  | ChangeEmail string string
  | CreateUser string string string
  | DeleteUser string

fun exec :: "(string \<Rightarrow> string) \<Rightarrow> (char \<Rightarrow> char \<Rightarrow> bool) \<Rightarrow> command \<Rightarrow> store \<Rightarrow> outcome" where
  "exec hash eqc Initialize s = initialize hash s"
| "exec hash eqc (GetUser q) s = get_user eqc q s"
| "exec hash eqc (GetAllUsers l k) s = get_all_users l k s"
| "exec hash eqc (ChangeEmail u e) s = change_email u e s"
| "exec hash eqc (CreateUser u e p) s = create_user hash u e p s"
| "exec hash eqc (DeleteUser u) s = delete_user u s"

fun run :: "(string \<Rightarrow> string) \<Rightarrow> (char \<Rightarrow> char \<Rightarrow> bool) \<Rightarrow> command list \<Rightarrow> store \<Rightarrow> store" where
  "run hash eqc [] s = s"
| "run hash eqc (c # cs) s = run hash eqc cs (db (exec hash eqc c s))"

text \<open>The uniqueness constraints of the table, the primary key included.\<close>

definition store_inv :: "store \<Rightarrow> bool" where
  "store_inv s \<longleftrightarrow>
     distinct (map uid s) \<and> distinct (map username s) \<and> distinct (map email s)"

section \<open>Facts about the gateway\<close>

lemma fold_max_ge: "(a::int) \<le> fold max xs a"
  by (induction xs arbitrary: a) (auto intro: order_trans [OF max.cobounded2])

lemma fold_max_mem: "(x::int) \<in> set xs \<Longrightarrow> x \<le> fold max xs a"
proof (induction xs arbitrary: a)
  case Nil
  then show ?case by simp
next
  case (Cons y ys)
  show ?case
  proof (cases "x = y")
    case True
    have "max y a \<le> fold max ys (max y a)" by (rule fold_max_ge)
    with True show ?thesis by simp
  next
    case False
    with Cons show ?thesis by simp
  qed
qed

lemma fresh_id_gt: "r \<in> set s \<Longrightarrow> uid r < fresh_id s"
  using fold_max_mem [of "uid r" "map uid s" 0] by (simp add: fresh_id_def)

lemma fresh_id_notin: "fresh_id s \<notin> uid ` set s"
  using fresh_id_gt by fastforce

lemma insert_row_inv:
  "store_inv s \<Longrightarrow> insert_row s u e pw = Inr (s', row) \<Longrightarrow> store_inv s'"
  using fresh_id_notin [of s]
  by (auto simp: insert_row_def store_inv_def list_ex_iff Let_def split: if_splits)

lemma delete_row_inv: "store_inv s \<Longrightarrow> store_inv (delete_row s i)"
  by (auto simp: store_inv_def delete_row_def distinct_map_filter)

subsection \<open>LIKE matches every string that holds the query\<close>

lemma like_percent_all: "like eqc [CHR ''%''] s"
  by (induction s) auto

lemma like_percent_skip: "like eqc ps s \<Longrightarrow> like eqc (CHR ''%'' # ps) s"
  by (cases s) auto

lemma like_self_prefix:
  "\<forall>c. eqc c c \<Longrightarrow> like eqc (q @ [CHR ''%'']) (q @ t)"
proof (induction q)
  case Nil
  then show ?case using like_percent_all by simp
next
  case (Cons a q)
  then show ?case using like_percent_skip [of eqc "q @ [CHR ''%'']" "q @ t"] by auto
qed

lemma like_percent_drop: "like eqc (CHR ''%'' # ps) s \<Longrightarrow> like eqc (CHR ''%'' # ps) (xs @ s)"
  by (induction xs) auto

lemma contains_infix:
  "\<forall>c. eqc c c \<Longrightarrow> contains eqc (xs @ q @ t) q"
  unfolding contains_def
  using like_percent_drop [OF like_percent_skip [OF like_self_prefix]] by fastforce

lemma contains_self: "\<forall>c. eqc c c \<Longrightarrow> contains eqc q q"
  using contains_infix [of eqc "[]" q "[]"] by simp

subsection \<open>Queries with and without wildcards\<close>




lemma update_email_inv:
  assumes "store_inv s" and "update_email s i e = Inr s'"
  shows "store_inv s'"
proof -
  let ?upd = "\<lambda>r. if uid r = i then r\<lparr>email := e\<rparr> else r"
  from assms(2) have s': "s' = map ?upd s"
    and free: "\<not> list_ex (\<lambda>r. uid r \<noteq> i \<and> email r = e) s"
    by (auto simp: update_email_def split: if_splits)
  have ids: "map uid s' = map uid s" and names: "map username s' = map username s"
    unfolding s' by (induction s) auto
  have inj: "inj_on (email \<circ> ?upd) (set s)"
  proof (rule inj_onI)
    fix a b assume a: "a \<in> set s" and b: "b \<in> set s"
      and eq: "(email \<circ> ?upd) a = (email \<circ> ?upd) b"
    have da: "distinct (map email s)" and di: "distinct (map uid s)"
      using assms(1) by (auto simp: store_inv_def)
    show "a = b"
    proof (cases "uid a = i")
      case ai: True
      show ?thesis
      proof (cases "uid b = i")
        case True
        with ai have "uid a = uid b" by simp
        with di a b show ?thesis by (meson distinct_map inj_onD)
      next
        case False
        with ai eq have "email b = e" by simp
        with False b free show ?thesis by (auto simp: list_ex_iff)
      qed
    next
      case an: False
      show ?thesis
      proof (cases "uid b = i")
        case True
        with an eq have "email a = e" by simp
        with an a free show ?thesis by (auto simp: list_ex_iff)
      next
        case False
        with an eq have "email a = email b" by simp
        with da a b show ?thesis by (meson distinct_map inj_onD)
      qed
    qed
  qed
  have "distinct s" using assms(1) by (auto simp: store_inv_def distinct_map)
  with inj have "distinct (map (email \<circ> ?upd) s)" by (simp add: distinct_map)
  then have "distinct (map email s')" unfolding s' by simp
  with ids names assms(1) show ?thesis by (simp add: store_inv_def)
qed

lemma first_by_username_None: "first_by_username s u = None \<longleftrightarrow> u \<notin> username ` set s"
  by (auto simp: first_by_username_def find_None_iff)

lemma first_by_username_Some:
  "first_by_username s u = Some x \<Longrightarrow> x \<in> set s \<and> username x = u"
  by (auto simp: first_by_username_def find_Some_iff)

lemma initialize_db:
  "db (initialize hash s) =
     [\<lparr>uid = 1, username = ''bob'', email = ''bob@mail.com'', password = hash ''bobpass''\<rparr>]"
  by (simp add: initialize_def reset_schema_def insert_row_def fresh_id_def Let_def)

lemma initialize_inv: "store_inv (db (initialize hash s))"
  by (simp add: initialize_db store_inv_def)

lemma create_user_inv: "store_inv s \<Longrightarrow> store_inv (db (create_user hash u e p s))"
  by (auto simp: create_user_def split: sum.splits db_error.splits dest: insert_row_inv)

lemma change_email_inv: "store_inv s \<Longrightarrow> store_inv (db (change_email u e s))"
  by (auto simp: change_email_def split: option.splits sum.splits dest: update_email_inv)

lemma delete_user_inv: "store_inv s \<Longrightarrow> store_inv (db (delete_user u s))"
  by (auto simp: delete_user_def delete_row_inv split: option.splits)

lemma get_user_db: "db (get_user eqc q s) = s"
  by (simp add: get_user_def Let_def)

lemma get_all_users_db: "db (get_all_users l k s) = s"
  by (simp add: get_all_users_def Let_def split: sum.splits)

lemma exec_inv: "store_inv s \<Longrightarrow> store_inv (db (exec hash eqc c s))"
  by (cases c)
    (simp_all add: initialize_inv create_user_inv change_email_inv delete_user_inv
       get_user_db get_all_users_db)

lemma run_inv: "store_inv s \<Longrightarrow> store_inv (run hash eqc cs s)"
  by (induction cs arbitrary: s) (simp_all add: exec_inv)

lemma distinct_count1:
  "distinct (map f s) \<Longrightarrow> r \<in> set s \<Longrightarrow> length (filter (\<lambda>x. f x = f r) s) = 1"
proof (induction s)
  case Nil
  then show ?case by simp
next
  case (Cons a s)
  show ?case
  proof (cases "f a = f r")
    case True
    with Cons.prems(1) have "f r \<notin> f ` set s" by simp
    then have "\<forall>x\<in>set s. f x \<noteq> f r" by (metis imageI)
    then have "filter (\<lambda>x. f x = f r) s = []" by (simp add: filter_empty_conv)
    with True show ?thesis by simp
  next
    case False
    with Cons show ?thesis by auto
  qed
qed

section \<open>The claims\<close>

text \<open>
  C1. Whatever the table holds, \<^verbatim>\<open>create_user\<close> with a username or an email that a
  row already has rolls the session back, leaves the table as it was, prints
  \<^verbatim>\<open>Username or email already taken!\<close> and ends with exit code 0; on a table that
  satisfies its constraints there is then still exactly one row with that username
  (or that email).
\<close>

theorem create_user_duplicate:
  assumes "r \<in> set s" and "username r = u \<or> email r = e"
  shows "create_user hash u e p s =
           \<lparr>db = s, printed = [Text ''Username or email already taken!''],
            status = Exit0, rolled_back = True\<rparr>
         \<and> (store_inv s \<and> username r = u \<longrightarrow>
              length (filter (\<lambda>x. username x = u) (db (create_user hash u e p s))) = 1)
         \<and> (store_inv s \<and> email r = e \<longrightarrow>
              length (filter (\<lambda>x. email x = e) (db (create_user hash u e p s))) = 1)"
proof -
  from assms have "list_ex (\<lambda>r. username r = u \<or> email r = e) s"
    by (auto simp: list_ex_iff)
  then have "insert_row s u e (hash p) = Inl IntegrityError"
    by (simp add: insert_row_def)
  then have res: "create_user hash u e p s =
      \<lparr>db = s, printed = [Text ''Username or email already taken!''],
       status = Exit0, rolled_back = True\<rparr>"
    by (simp add: create_user_def)
  have "length (filter (\<lambda>x. username x = u) s) = 1" if "store_inv s" "username r = u"
    using that assms(1) distinct_count1 [of username s r] by (auto simp: store_inv_def)
  moreover have "length (filter (\<lambda>x. email x = e) s) = 1" if "store_inv s" "email r = e"
    using that assms(1) distinct_count1 [of email s r] by (auto simp: store_inv_def)
  ultimately show ?thesis using res by simp
qed

theorem create_user_duplicate_witness:
  "\<lparr>uid = 1, username = ''alice'', email = ''alice@x.com'', password = ''wp''\<rparr>
     \<in> set (db (create_user rev ''alice'' ''alice@x.com'' ''pw'' []))
   \<and> store_inv (db (create_user rev ''alice'' ''alice@x.com'' ''pw'' []))
   \<and> create_user rev ''alice'' ''other@x.com'' ''pw2''
        (db (create_user rev ''alice'' ''alice@x.com'' ''pw'' [])) =
      \<lparr>db = [\<lparr>uid = 1, username = ''alice'', email = ''alice@x.com'', password = ''wp''\<rparr>],
       printed = [Text ''Username or email already taken!''],
       status = Exit0, rolled_back = True\<rparr>
   \<and> length (filter (\<lambda>x. username x = ''alice'')
        (db (create_user rev ''alice'' ''other@x.com'' ''pw2''
           (db (create_user rev ''alice'' ''alice@x.com'' ''pw'' []))))) = 1"
proof -
  have s: "db (create_user rev ''alice'' ''alice@x.com'' ''pw'' []) =
      [\<lparr>uid = 1, username = ''alice'', email = ''alice@x.com'', password = ''wp''\<rparr>]"
    by (simp add: create_user_def insert_row_def fresh_id_def Let_def)
  show ?thesis
    unfolding s
    using create_user_duplicate
      [of "\<lparr>uid = 1, username = ''alice'', email = ''alice@x.com'', password = ''wp''\<rparr>"
          "[\<lparr>uid = 1, username = ''alice'', email = ''alice@x.com'', password = ''wp''\<rparr>]"
          "''alice''" "''other@x.com''" rev "''pw2''"]
    by (simp add: store_inv_def)
qed

text \<open>
  C6. \<^verbatim>\<open>change_email\<close> for a username that no row has leaves the table as it was,
  prints the not-found line and ends with exit code 0.
\<close>

theorem change_email_not_found:
  assumes "u \<notin> username ` set s"
  shows "change_email u e s =
           \<lparr>db = s, printed = [Text (u @ '' not found! Unable to update email.'')],
            status = Exit0, rolled_back = False\<rparr>"
  using assms by (simp add: change_email_def first_by_username_None [symmetric])

theorem change_email_not_found_witness:
  "''alice'' \<notin> username ` set (db (initialize rev []))
   \<and> change_email ''alice'' ''alice@x.com'' (db (initialize rev [])) =
       \<lparr>db = [\<lparr>uid = 1, username = ''bob'', email = ''bob@mail.com'', password = ''ssapbob''\<rparr>],
        printed = [Text ''alice not found! Unable to update email.''],
        status = Exit0, rolled_back = False\<rparr>"
  using change_email_not_found [of "''alice''" "db (initialize rev [])" "''alice@x.com''"]
  by (simp add: initialize_db)

text \<open>
  C9. When the new email is the email of another user, \<^verbatim>\<open>change_email\<close> catches
  nothing: it prints no line, calls no rollback of its own, and the
  \<^verbatim>\<open>IntegrityError\<close> of the commit leaves the command uncaught. The table keeps its
  rows.
\<close>

theorem change_email_duplicate_uncaught:
  assumes "store_inv s" and "x \<in> set s" and "username x = u"
    and "r \<in> set s" and "username r \<noteq> u" and "email r = e"
  shows "change_email u e s =
           \<lparr>db = s, printed = [], status = Uncaught IntegrityError, rolled_back = False\<rparr>"
proof -
  from assms(2,3) have "u \<in> username ` set s" by auto
  then obtain y where y: "first_by_username s u = Some y"
    using first_by_username_None [of s u] by (cases "first_by_username s u") auto
  then have "y \<in> set s" and "username y = u" by (simp_all add: first_by_username_Some)
  moreover have "inj_on uid (set s)" using assms(1) by (simp add: store_inv_def distinct_map)
  ultimately have "uid r \<noteq> uid y" using assms(4,5) by (auto dest: inj_onD)
  with assms(4,6) have "list_ex (\<lambda>r. uid r \<noteq> uid y \<and> email r = e) s"
    by (auto simp: list_ex_iff)
  then have "update_email s (uid y) e = Inl IntegrityError"
    by (simp add: update_email_def)
  with y show ?thesis by (simp add: change_email_def)
qed

theorem change_email_duplicate_uncaught_witness:
  "store_inv [\<lparr>uid = 1, username = ''bob'', email = ''bob@mail.com'', password = ''h1''\<rparr>,
              \<lparr>uid = 2, username = ''alice'', email = ''alice@x.com'', password = ''h2''\<rparr>]
   \<and> change_email ''bob'' ''alice@x.com''
        [\<lparr>uid = 1, username = ''bob'', email = ''bob@mail.com'', password = ''h1''\<rparr>,
         \<lparr>uid = 2, username = ''alice'', email = ''alice@x.com'', password = ''h2''\<rparr>] =
      \<lparr>db = [\<lparr>uid = 1, username = ''bob'', email = ''bob@mail.com'', password = ''h1''\<rparr>,
             \<lparr>uid = 2, username = ''alice'', email = ''alice@x.com'', password = ''h2''\<rparr>],
       printed = [], status = Uncaught IntegrityError, rolled_back = False\<rparr>"
  using change_email_duplicate_uncaught
    [of "[\<lparr>uid = 1, username = ''bob'', email = ''bob@mail.com'', password = ''h1''\<rparr>,
          \<lparr>uid = 2, username = ''alice'', email = ''alice@x.com'', password = ''h2''\<rparr>]"
        "\<lparr>uid = 1, username = ''bob'', email = ''bob@mail.com'', password = ''h1''\<rparr>"
        "''bob''"
        "\<lparr>uid = 2, username = ''alice'', email = ''alice@x.com'', password = ''h2''\<rparr>"
        "''alice@x.com''"]
  by (simp add: store_inv_def)

text \<open>
  C7. From any table, \<^verbatim>\<open>initialize\<close> empties the schema and inserts the one seed
  user, so the table then holds exactly the row of \<^verbatim>\<open>bob\<close> with email
  \<^verbatim>\<open>bob@mail.com\<close> and the hashed password; a following \<^verbatim>\<open>get_user("bob")\<close> prints
  exactly that one row. The character comparison of LIKE is assumed reflexive.
\<close>

theorem initialize_then_get_bob:
  assumes "\<forall>c. eqc c c"
  shows "initialize hash s =
           \<lparr>db = [\<lparr>uid = 1, username = ''bob'', email = ''bob@mail.com'',
                   password = hash ''bobpass''\<rparr>],
            printed = [Text ''Database Initialized''], status = Exit0, rolled_back = False\<rparr>
         \<and> search_users eqc ''bob'' (db (initialize hash s)) =
             [\<lparr>uid = 1, username = ''bob'', email = ''bob@mail.com'',
               password = hash ''bobpass''\<rparr>]
         \<and> printed (get_user eqc ''bob'' (db (initialize hash s))) =
             [Shown \<lparr>uid = 1, username = ''bob'', email = ''bob@mail.com'',
                     password = hash ''bobpass''\<rparr>]
         \<and> status (get_user eqc ''bob'' (db (initialize hash s))) = Exit0"
proof -
  have ini: "initialize hash s =
      \<lparr>db = [\<lparr>uid = 1, username = ''bob'', email = ''bob@mail.com'',
              password = hash ''bobpass''\<rparr>],
       printed = [Text ''Database Initialized''], status = Exit0, rolled_back = False\<rparr>"
    by (simp add: initialize_def reset_schema_def insert_row_def fresh_id_def Let_def)
  have "contains eqc ''bob'' ''bob''" using assms by (rule contains_self)
  then have found: "search_users eqc ''bob'' (db (initialize hash s)) =
      [\<lparr>uid = 1, username = ''bob'', email = ''bob@mail.com'', password = hash ''bobpass''\<rparr>]"
    by (simp add: ini search_users_def)
  show ?thesis using ini found by (simp add: get_user_def)
qed

theorem initialize_then_get_bob_witness:
  "(\<forall>c::char. c = c)
   \<and> db (initialize rev [\<lparr>uid = 7, username = ''old'', email = ''old@x.com'', password = ''h''\<rparr>]) =
       [\<lparr>uid = 1, username = ''bob'', email = ''bob@mail.com'', password = ''ssapbob''\<rparr>]
   \<and> printed (get_user (=) ''bob''
        (db (initialize rev [\<lparr>uid = 7, username = ''old'', email = ''old@x.com'', password = ''h''\<rparr>]))) =
       [Shown \<lparr>uid = 1, username = ''bob'', email = ''bob@mail.com'', password = ''ssapbob''\<rparr>]"
  using initialize_then_get_bob
    [of "(=)" rev "[\<lparr>uid = 7, username = ''old'', email = ''old@x.com'', password = ''h''\<rparr>]"]
  by (simp add: initialize_db)

lemma map_update_nth:
  assumes "distinct (map f s)" and "i < length s"
  shows "map (\<lambda>r. if f r = f (s ! i) then g r else r) s = s[i := g (s ! i)]"
proof (rule nth_equalityI)
  show "length (map (\<lambda>r. if f r = f (s ! i) then g r else r) s) = length (s[i := g (s ! i)])"
    by simp
next
  fix j assume "j < length (map (\<lambda>r. if f r = f (s ! i) then g r else r) s)"
  then have j: "j < length s" by simp
  have "f (s ! j) = f (s ! i) \<longleftrightarrow> j = i"
    using assms j nth_eq_iff_index_eq [of "map f s" j i] by simp
  with j assms(2)
  show "map (\<lambda>r. if f r = f (s ! i) then g r else r) s ! j = s[i := g (s ! i)] ! j"
    by (auto simp: nth_list_update)
qed

text \<open>
  C10. A \<^verbatim>\<open>change_email\<close> that succeeds on a table satisfying its constraints
  rewrites one row only, the single row with the given username, and in that row the
  email only: key, username and password stay, every other row stays, and so does the
  order of the rows.
\<close>

theorem change_email_frame:
  assumes "store_inv s" and "u \<in> username ` set s"
    and "status (change_email u e s) = Exit0"
  shows "\<exists>i<length s.
           username (s ! i) = u
           \<and> (\<forall>j<length s. username (s ! j) = u \<longrightarrow> j = i)
           \<and> db (change_email u e s) = s[i := (s ! i)\<lparr>email := e\<rparr>]
           \<and> length (db (change_email u e s)) = length s
           \<and> uid (db (change_email u e s) ! i) = uid (s ! i)
           \<and> username (db (change_email u e s) ! i) = username (s ! i)
           \<and> password (db (change_email u e s) ! i) = password (s ! i)
           \<and> email (db (change_email u e s) ! i) = e
           \<and> (\<forall>j<length s. j \<noteq> i \<longrightarrow> db (change_email u e s) ! j = s ! j)"
proof -
  from assms(2) obtain y where y: "first_by_username s u = Some y"
    using first_by_username_None [of s u] by (cases "first_by_username s u") auto
  then have ys: "y \<in> set s" and yu: "username y = u"
    by (simp_all add: first_by_username_Some)
  from ys obtain i where i: "i < length s" and si: "s ! i = y"
    by (auto simp: in_set_conv_nth)
  have du: "distinct (map uid s)" and dn: "distinct (map username s)"
    using assms(1) by (simp_all add: store_inv_def)
  from assms(3) y have ok: "update_email s (uid y) e =
      Inr (map (\<lambda>r. if uid r = uid y then r\<lparr>email := e\<rparr> else r) s)"
    by (auto simp: change_email_def update_email_def split: if_splits)
  have "map (\<lambda>r. if uid r = uid (s ! i) then r\<lparr>email := e\<rparr> else r) s
      = s[i := (s ! i)\<lparr>email := e\<rparr>]"
    using du i by (rule map_update_nth)
  with ok y si have res: "db (change_email u e s) = s[i := (s ! i)\<lparr>email := e\<rparr>]"
    by (simp add: change_email_def)
  have only: "j = i" if "j < length s" and "username (s ! j) = u" for j
  proof -
    have eq: "map username s ! j = map username s ! i" using that i si yu by simp
    have lj: "j < length (map username s)" and li: "i < length (map username s)"
      using that(1) i by simp_all
    from eq show ?thesis by (simp only: nth_eq_iff_index_eq [OF dn lj li])
  qed
  have same: "db (change_email u e s) ! j = s ! j" if "j < length s" and "j \<noteq> i" for j
    using that by (simp add: res)
  have at_i: "db (change_email u e s) ! i = (s ! i)\<lparr>email := e\<rparr>"
    using i by (simp add: res)
  show ?thesis
  proof (intro exI [of _ i] conjI allI impI)
    show "i < length s" by (rule i)
    show "username (s ! i) = u" using si yu by simp
    show "j = i" if "j < length s" and "username (s ! j) = u" for j
      using that by (rule only)
    show "db (change_email u e s) = s[i := (s ! i)\<lparr>email := e\<rparr>]" by (rule res)
    show "length (db (change_email u e s)) = length s" by (simp add: res)
    show "uid (db (change_email u e s) ! i) = uid (s ! i)" by (simp add: at_i)
    show "username (db (change_email u e s) ! i) = username (s ! i)" by (simp add: at_i)
    show "password (db (change_email u e s) ! i) = password (s ! i)" by (simp add: at_i)
    show "email (db (change_email u e s) ! i) = e" by (simp add: at_i)
    show "db (change_email u e s) ! j = s ! j" if "j < length s" and "j \<noteq> i" for j
      using that by (rule same)
  qed
qed

theorem change_email_frame_witness:
  "store_inv [\<lparr>uid = 1, username = ''bob'', email = ''bob@mail.com'', password = ''h1''\<rparr>,
              \<lparr>uid = 2, username = ''alice'', email = ''alice@x.com'', password = ''h2''\<rparr>]
   \<and> status (change_email ''alice'' ''al@y.org''
        [\<lparr>uid = 1, username = ''bob'', email = ''bob@mail.com'', password = ''h1''\<rparr>,
         \<lparr>uid = 2, username = ''alice'', email = ''alice@x.com'', password = ''h2''\<rparr>]) = Exit0
   \<and> (\<exists>i<2. db (change_email ''alice'' ''al@y.org''
        [\<lparr>uid = 1, username = ''bob'', email = ''bob@mail.com'', password = ''h1''\<rparr>,
         \<lparr>uid = 2, username = ''alice'', email = ''alice@x.com'', password = ''h2''\<rparr>]) =
       [\<lparr>uid = 1, username = ''bob'', email = ''bob@mail.com'', password = ''h1''\<rparr>,
        \<lparr>uid = 2, username = ''alice'', email = ''alice@x.com'', password = ''h2''\<rparr>]
       [i := \<lparr>uid = 2, username = ''alice'', email = ''al@y.org'', password = ''h2''\<rparr>])"
proof -
  let ?s = "[\<lparr>uid = 1, username = ''bob'', email = ''bob@mail.com'', password = ''h1''\<rparr>,
             \<lparr>uid = 2, username = ''alice'', email = ''alice@x.com'', password = ''h2''\<rparr>]"
  have inv: "store_inv ?s" by (simp add: store_inv_def)
  have mem: "''alice'' \<in> username ` set ?s" by simp
  have ok: "status (change_email ''alice'' ''al@y.org'' ?s) = Exit0"
    by (simp add: change_email_def first_by_username_def update_email_def)
  from change_email_frame [OF inv mem ok]
  obtain i where "i < length ?s" and "username (?s ! i) = ''alice''"
    and "db (change_email ''alice'' ''al@y.org'' ?s) = ?s[i := (?s ! i)\<lparr>email := ''al@y.org''\<rparr>]"
    by blast
  moreover from this(1,2) have "i = 1" by (cases i) auto
  ultimately have "db (change_email ''alice'' ''al@y.org'' ?s) =
      ?s[1 := \<lparr>uid = 2, username = ''alice'', email = ''al@y.org'', password = ''h2''\<rparr>]"
    by simp
  then have "\<exists>i<2. db (change_email ''alice'' ''al@y.org'' ?s) =
      ?s[i := \<lparr>uid = 2, username = ''alice'', email = ''al@y.org'', password = ''h2''\<rparr>]"
    by (intro exI [of _ 1]) simp
  with inv ok show ?thesis by (intro conjI)
qed




lemma create_user_unchanged:
  "list_ex (\<lambda>r. username r = u \<or> email r = e) s \<Longrightarrow> db (create_user hash u e p s) = s"
  by (simp add: create_user_def insert_row_def)

text \<open>
  C2 (amended). Every table that a run of commands reaches, from the empty table or
  from \<^verbatim>\<open>initialize\<close> on any table, has no two rows with the same username and no
  two rows with the same email; each command keeps it so. A \<^verbatim>\<open>create_user\<close> that
  would repeat a username or an email, and a \<^verbatim>\<open>change_email\<close> that would repeat an
  email, fail and leave the table as it was. Nothing is said about empty strings.
\<close>

theorem uniqueness_invariant:
  "store_inv (run hash eqc cmds [])
   \<and> store_inv (run hash eqc (Initialize # cmds) s0)
   \<and> (store_inv s \<longrightarrow> store_inv (db (exec hash eqc c s)))
   \<and> (store_inv s \<longrightarrow> distinct (map username s) \<and> distinct (map email s))
   \<and> (list_ex (\<lambda>r. username r = u \<or> email r = e) s \<longrightarrow>
        db (create_user hash u e p s) = s
        \<and> printed (create_user hash u e p s) = [Text ''Username or email already taken!''])
   \<and> (store_inv s \<and> list_ex (\<lambda>r. username r = u) s
        \<and> list_ex (\<lambda>r. username r \<noteq> u \<and> email r = e) s \<longrightarrow>
        db (change_email u e s) = s
        \<and> status (change_email u e s) = Uncaught IntegrityError)"
proof (intro conjI impI)
  have "store_inv []" by (simp add: store_inv_def)
  then show "store_inv (run hash eqc cmds [])" by (rule run_inv)
  show "store_inv (run hash eqc (Initialize # cmds) s0)"
    using run_inv [OF initialize_inv] by simp
  show "store_inv (db (exec hash eqc c s))" if "store_inv s"
    using that by (rule exec_inv)
  show "distinct (map username s)" if "store_inv s"
    using that by (simp add: store_inv_def)
  show "distinct (map email s)" if "store_inv s"
    using that by (simp add: store_inv_def)
  show "db (create_user hash u e p s) = s"
    if "list_ex (\<lambda>r. username r = u \<or> email r = e) s"
    using that by (rule create_user_unchanged)
  show "printed (create_user hash u e p s) = [Text ''Username or email already taken!'']"
    if "list_ex (\<lambda>r. username r = u \<or> email r = e) s"
    using that by (simp add: create_user_def insert_row_def)
next
  assume a: "store_inv s \<and> list_ex (\<lambda>r. username r = u) s
      \<and> list_ex (\<lambda>r. username r \<noteq> u \<and> email r = e) s"
  then obtain y where y: "first_by_username s u = Some y"
    using first_by_username_None [of s u]
    by (cases "first_by_username s u") (auto simp: list_ex_iff)
  then have ys: "y \<in> set s" and yu: "username y = u"
    by (simp_all add: first_by_username_Some)
  from a obtain r where r: "r \<in> set s" "username r \<noteq> u" "email r = e"
    by (auto simp: list_ex_iff)
  have "inj_on uid (set s)" using a by (simp add: store_inv_def distinct_map)
  with ys yu r have "uid r \<noteq> uid y" by (auto dest: inj_onD)
  with r have "list_ex (\<lambda>r. uid r \<noteq> uid y \<and> email r = e) s"
    by (auto simp: list_ex_iff)
  then have fail: "update_email s (uid y) e = Inl IntegrityError"
    by (simp add: update_email_def)
  show "db (change_email u e s) = s" using y fail by (simp add: change_email_def)
  show "status (change_email u e s) = Uncaught IntegrityError"
    using y fail by (simp add: change_email_def)
qed

theorem uniqueness_invariant_witness:
  "store_inv (run rev (=) [Initialize, CreateUser ''alice'' ''alice@x.com'' ''pw''] [])
   \<and> run rev (=) [Initialize, CreateUser ''alice'' ''alice@x.com'' ''pw''] [] =
       [\<lparr>uid = 1, username = ''bob'', email = ''bob@mail.com'', password = ''ssapbob''\<rparr>,
        \<lparr>uid = 2, username = ''alice'', email = ''alice@x.com'', password = ''wp''\<rparr>]
   \<and> db (create_user rev ''carol'' ''bob@mail.com'' ''pw''
        [\<lparr>uid = 1, username = ''bob'', email = ''bob@mail.com'', password = ''ssapbob''\<rparr>,
         \<lparr>uid = 2, username = ''alice'', email = ''alice@x.com'', password = ''wp''\<rparr>]) =
       [\<lparr>uid = 1, username = ''bob'', email = ''bob@mail.com'', password = ''ssapbob''\<rparr>,
        \<lparr>uid = 2, username = ''alice'', email = ''alice@x.com'', password = ''wp''\<rparr>]
   \<and> status (change_email ''alice'' ''bob@mail.com''
        [\<lparr>uid = 1, username = ''bob'', email = ''bob@mail.com'', password = ''ssapbob''\<rparr>,
         \<lparr>uid = 2, username = ''alice'', email = ''alice@x.com'', password = ''wp''\<rparr>]) =
       Uncaught IntegrityError
   \<and> db (change_email ''alice'' ''bob@mail.com''
        [\<lparr>uid = 1, username = ''bob'', email = ''bob@mail.com'', password = ''ssapbob''\<rparr>,
         \<lparr>uid = 2, username = ''alice'', email = ''alice@x.com'', password = ''wp''\<rparr>]) =
       [\<lparr>uid = 1, username = ''bob'', email = ''bob@mail.com'', password = ''ssapbob''\<rparr>,
        \<lparr>uid = 2, username = ''alice'', email = ''alice@x.com'', password = ''wp''\<rparr>]"
proof -
  let ?s = "[\<lparr>uid = 1, username = ''bob'', email = ''bob@mail.com'', password = ''ssapbob''\<rparr>,
             \<lparr>uid = 2, username = ''alice'', email = ''alice@x.com'', password = ''wp''\<rparr>]"
  have run: "run rev (=) [Initialize, CreateUser ''alice'' ''alice@x.com'' ''pw''] [] = ?s"
    by (simp add: initialize_db create_user_def insert_row_def fresh_id_def Let_def)
  have inv: "store_inv ?s" by (simp add: store_inv_def)
  note th = uniqueness_invariant
    [of rev "(=)" "[CreateUser ''alice'' ''alice@x.com'' ''pw'']" "[]" ?s Initialize
        "''carol''" "''bob@mail.com''" "''pw''"]
  note th2 = uniqueness_invariant
    [of rev "(=)" "[]" "[]" ?s Initialize "''alice''" "''bob@mail.com''" "''pw''"]
  from th have "db (create_user rev ''carol'' ''bob@mail.com'' ''pw'' ?s) = ?s" by simp
  moreover from th2 inv
  have "db (change_email ''alice'' ''bob@mail.com'' ?s) = ?s
      \<and> status (change_email ''alice'' ''bob@mail.com'' ?s) = Uncaught IntegrityError"
    by simp
  ultimately show ?thesis using run inv by simp
qed

text \<open>
  The claim as written also promises that no username and no email is empty. The
  commands check nothing of the kind and the table has no such constraint: after
  \<^verbatim>\<open>initialize\<close>, \<^verbatim>\<open>change_email\<close> assigns an empty email to \<^verbatim>\<open>bob\<close>, and
  \<^verbatim>\<open>create_user\<close> with an empty username and an empty email succeeds.
\<close>

theorem nonempty_columns_counterexample:
  "run rev (=) [Initialize, ChangeEmail ''bob'' []] [] =
     [\<lparr>uid = 1, username = ''bob'', email = [], password = ''ssapbob''\<rparr>]
   \<and> run rev (=) [Initialize, CreateUser [] [] ''pw''] [] =
     [\<lparr>uid = 1, username = ''bob'', email = ''bob@mail.com'', password = ''ssapbob''\<rparr>,
      \<lparr>uid = 2, username = [], email = [], password = ''wp''\<rparr>]
   \<and> \<not> list_all (\<lambda>r. username r \<noteq> [] \<and> email r \<noteq> [])
        (run rev (=) [Initialize, ChangeEmail ''bob'' []] [])"
  by (simp add: initialize_db create_user_def insert_row_def fresh_id_def Let_def
      change_email_def first_by_username_def update_email_def)

















text \<open>
  C4. The claim reads \<^verbatim>\<open>get_user(q)\<close> as a substring search, as the command's
  docstring does. For a query without \<^verbatim>\<open>%\<close> and \<^verbatim>\<open>_\<close> and an exact comparison of
  characters that is what the command computes (\<open>contains_plain_query\<close>). The query
  itself is never escaped, though: \<^verbatim>\<open>get_user("%")\<close> prints the row of \<^verbatim>\<open>bob\<close>, whose
  username and email hold no \<^verbatim>\<open>%\<close>, where the claim has \<^verbatim>\<open>No users found\<close>.
\<close>

theorem get_user_wildcard_query:
  "printed (get_user eqc ''%''
      [\<lparr>uid = 1, username = ''bob'', email = ''bob@mail.com'', password = ''h1''\<rparr>]) =
     [Shown \<lparr>uid = 1, username = ''bob'', email = ''bob@mail.com'', password = ''h1''\<rparr>]
   \<and> is_substring ''%'' ''bob'' = False
   \<and> is_substring ''%'' ''bob@mail.com'' = False"
  by (simp add: get_user_def search_users_def contains_def)

end
